theory Spec2Isabelle
  imports Main "HOL-Library.Word"
begin

section \<open>Schnorr signing utilities of the optimistic node (src/utils.js)\<close>

text \<open>
  The file embeds the functions of \<^verbatim>\<open>src/utils.js\<close>. JavaScript strings are modelled as
  \<open>string\<close> (lists of 8-bit code units), BN.js numbers as \<open>int\<close>, Node buffers as lists of
  \<open>8 word\<close>, and every \<^verbatim>\<open>throw\<close> as a value \<open>Inl err\<close> of a sum type. The third-party
  libraries the file calls (elliptic, BN.js, web3-utils) are not part of the repository:
  their string and number formatting is written out below, and the curve arithmetic and
  the hash function are fields of a record passed to every function that uses them.
\<close>

subsection \<open>Errors\<close>

datatype error =
    MalformedSignature  \<comment> \<open>\<^verbatim>\<open>throw `invalid schnorr signature string`\<close> in splitSignature\<close>
  | InvalidNumber       \<comment> \<open>the Error thrown by web3's toBN on a string that is no number\<close>
  | InvalidAddress      \<comment> \<open>the Error thrown by web3's toChecksumAddress\<close>
  | TypeError           \<comment> \<open>reading a coordinate of the point at infinity (a null field)\<close>
  | AssertionFailed     \<comment> \<open>BN.js: byte array longer than desired length\<close>
  | AppNotFound         \<comment> \<open>\<^verbatim>\<open>throw { message: `App not found on optimistic node` }\<close>\<close>
  | AppFailure          \<comment> \<open>an exception raised inside a computation module or the packer\<close>

type_synonym byte = "8 word"

subsection \<open>JavaScript string primitives\<close>

text \<open>\<^verbatim>\<open>str.replace(pat, rep)\<close> with a string pattern: the first occurrence only,
  wherever it is.\<close>

fun replace_first :: "string \<Rightarrow> string \<Rightarrow> string \<Rightarrow> string" where
  "replace_first pat rep [] = (if pat = [] then rep else [])"
| "replace_first pat rep (c # cs) =
     (if take (length pat) (c # cs) = pat then rep @ drop (length pat) (c # cs)
      else c # replace_first pat rep cs)"

text \<open>\<^verbatim>\<open>str.replace(/^0x/i, "")\<close>: a leading 0x or 0X is removed.\<close>

fun strip_0x_ci :: "string \<Rightarrow> string" where
  "strip_0x_ci (c # d # cs) =
     (if c = CHR ''0'' \<and> (d = CHR ''x'' \<or> d = CHR ''X'') then cs else c # d # cs)"
| "strip_0x_ci cs = cs"

text \<open>\<^verbatim>\<open>str.substr(start, len)\<close> for non-negative arguments, and \<^verbatim>\<open>str.substr(-k)\<close>.\<close>

definition substr :: "string \<Rightarrow> nat \<Rightarrow> nat \<Rightarrow> string" where
  "substr str start len = take len (drop start str)"

definition substr_last :: "string \<Rightarrow> nat \<Rightarrow> string" where
  "substr_last str k = drop (length str - k) str"

definition toLowerCase_char :: "char \<Rightarrow> char" where
  "toLowerCase_char c =
     (let k = (of_char c :: nat) in if 65 \<le> k \<and> k \<le> 90 then char_of (k + 32) else c)"

definition toUpperCase_char :: "char \<Rightarrow> char" where
  "toUpperCase_char c =
     (let k = (of_char c :: nat) in if 97 \<le> k \<and> k \<le> 122 then char_of (k - 32) else c)"

definition toLowerCase :: "string \<Rightarrow> string" where
  "toLowerCase str = map toLowerCase_char str"

text \<open>White space removed by \<^verbatim>\<open>trim()\<close>, among the 8-bit code units: tab, line feed,
  vertical tab, form feed, carriage return, space and the no-break space.\<close>

definition is_space :: "char \<Rightarrow> bool" where
  "is_space c = (let k = (of_char c :: nat) in (9 \<le> k \<and> k \<le> 13) \<or> k = 32 \<or> k = 160)"

definition trim :: "string \<Rightarrow> string" where
  "trim str = rev (dropWhile is_space (rev (dropWhile is_space str)))"

subsection \<open>Hexadecimal and decimal digits\<close>

definition hex_digit :: "nat \<Rightarrow> char" where
  "hex_digit d = (if d < 10 then char_of (48 + d) else char_of (87 + d))"

definition hex_value :: "char \<Rightarrow> nat option" where
  "hex_value c =
     (let k = (of_char c :: nat) in
      if 48 \<le> k \<and> k \<le> 57 then Some (k - 48)
      else if 97 \<le> k \<and> k \<le> 102 then Some (k - 87)
      else if 65 \<le> k \<and> k \<le> 70 then Some (k - 55)
      else None)"

definition is_dec_char :: "char \<Rightarrow> bool" where
  "is_dec_char c = (let k = (of_char c :: nat) in 48 \<le> k \<and> k \<le> 57)"

definition is_hex_char :: "char \<Rightarrow> bool" where
  "is_hex_char c = (hex_value c \<noteq> None)"

definition is_alpha_hex_char :: "char \<Rightarrow> bool" where
  "is_alpha_hex_char c =
     (let k = (of_char c :: nat) in (97 \<le> k \<and> k \<le> 102) \<or> (65 \<le> k \<and> k \<le> 70))"

text \<open>The lower-case digits that BN.js and Buffer write.\<close>

definition is_lower_hex :: "char \<Rightarrow> bool" where
  "is_lower_hex c =
     (let k = (of_char c :: nat) in (48 \<le> k \<and> k \<le> 57) \<or> (97 \<le> k \<and> k \<le> 102))"

text \<open>The regular expressions of number-to-bn: \<^verbatim>\<open>/^-?[0-9]+$/\<close>, \<^verbatim>\<open>/^[0-9A-Fa-f]+$/\<close>
  and \<^verbatim>\<open>/^[a-fA-F]+$/\<close>.\<close>

definition dec_match :: "string \<Rightarrow> bool" where
  "dec_match str =
     (case str of
        [] \<Rightarrow> False
      | c # cs \<Rightarrow> if c = CHR ''-'' then cs \<noteq> [] \<and> list_all is_dec_char cs
                  else list_all is_dec_char (c # cs))"

definition hex_match :: "string \<Rightarrow> bool" where
  "hex_match str = (str \<noteq> [] \<and> list_all is_hex_char str)"

definition alpha_hex_match :: "string \<Rightarrow> bool" where
  "alpha_hex_match str = (str \<noteq> [] \<and> list_all is_alpha_hex_char str)"

text \<open>Reading digits, most significant first (\<^verbatim>\<open>new BN(str, 16)\<close>, \<^verbatim>\<open>new BN(str, 10)\<close>).\<close>

definition parse_hex :: "string \<Rightarrow> nat" where
  "parse_hex str = foldl (\<lambda>acc c. 16 * acc + (case hex_value c of Some v \<Rightarrow> v | None \<Rightarrow> 0)) 0 str"

definition parse_dec_digits :: "string \<Rightarrow> nat" where
  "parse_dec_digits str = foldl (\<lambda>acc c. 10 * acc + ((of_char c :: nat) - 48)) 0 str"

definition parse_dec :: "string \<Rightarrow> int" where
  "parse_dec str =
     (case str of
        [] \<Rightarrow> 0
      | c # cs \<Rightarrow> if c = CHR ''-'' then - int (parse_dec_digits cs)
                  else int (parse_dec_digits (c # cs)))"

subsection \<open>BN.js: printing and byte arrays\<close>

text \<open>The digits of a natural number in base 16, without leading zeros (\<open>0\<close> is "0").\<close>

function to_hex :: "nat \<Rightarrow> string" where
  "to_hex k = (if k < 16 then [hex_digit k] else to_hex (k div 16) @ [hex_digit (k mod 16)])"
  by pat_completeness auto
termination
  by (relation "measure id") auto

declare to_hex.simps [simp del]

function to_dec :: "nat \<Rightarrow> string" where
  "to_dec k = (if k < 10 then [char_of (48 + k)] else to_dec (k div 10) @ [char_of (48 + k mod 10)])"
  by pat_completeness auto
termination
  by (relation "measure id") auto

declare to_dec.simps [simp del]

text \<open>
  \<^verbatim>\<open>num.toString("hex", padding)\<close> of BN.js: the hexadecimal digits of the magnitude, with
  zeros put in front until the length is a multiple of \<open>padding\<close> (a padding of 0 counts
  as 1), and a minus sign in front of a negative number. With padding 64 a number below
  \<open>2 ^ 256\<close> is written on exactly 64 characters, the 32-byte form of the wire format.
\<close>

definition bn_toString_hex :: "int \<Rightarrow> nat \<Rightarrow> string" where
  "bn_toString_hex num padding =
     (let out = to_hex (nat \<bar>num\<bar>);
          pad = (if padding = 0 then 1 else padding);
          padded = replicate ((pad - length out mod pad) mod pad) CHR ''0'' @ out
      in if num < 0 then CHR ''-'' # padded else padded)"

definition bn_toString_dec :: "int \<Rightarrow> string" where
  "bn_toString_dec num = (if num < 0 then CHR ''-'' # to_dec (nat \<bar>num\<bar>) else to_dec (nat num))"

text \<open>The big-endian bytes of a natural number without leading zero bytes (none for 0);
  their number is BN's \<^verbatim>\<open>byteLength()\<close>.\<close>

function to_bytes :: "nat \<Rightarrow> byte list" where
  "to_bytes k = (if k = 0 then [] else to_bytes (k div 256) @ [word_of_nat (k mod 256)])"
  by pat_completeness auto
termination
  by (relation "measure id") auto

declare to_bytes.simps [simp del]

definition byteLength :: "int \<Rightarrow> nat" where
  "byteLength num = length (to_bytes (nat \<bar>num\<bar>))"

text \<open>
  \<^verbatim>\<open>num.toBuffer("be", length)\<close>: \<^verbatim>\<open>reqLength = length || Math.max(1, byteLength)\<close>, an
  assertion that the number fits, and zero bytes in front. The sign is not written.
\<close>

definition bn_toBuffer_be :: "int \<Rightarrow> nat option \<Rightarrow> error + byte list" where
  "bn_toBuffer_be num len =
     (let bl = byteLength num;
          reqLength = (case len of None \<Rightarrow> max 1 bl | Some l \<Rightarrow> if l = 0 then max 1 bl else l)
      in if bl \<le> reqLength
         then Inr (replicate (reqLength - bl) 0 @ to_bytes (nat \<bar>num\<bar>))
         else Inl AssertionFailed)"

subsection \<open>Node buffers and hexadecimal text\<close>

text \<open>\<^verbatim>\<open>buf.toString("hex")\<close>: two lower-case digits for each byte.\<close>

definition buffer_toString_hex :: "byte list \<Rightarrow> string" where
  "buffer_toString_hex buf = concat (map (\<lambda>b. [hex_digit (unat b div 16), hex_digit (unat b mod 16)]) buf)"

text \<open>\<^verbatim>\<open>Buffer.from(str, "hex")\<close>: pairs of digits are read until the first pair that is
  not hexadecimal; a last single character is dropped.\<close>

fun buffer_from_hex :: "string \<Rightarrow> byte list" where
  "buffer_from_hex (c # d # cs) =
     (case (hex_value c, hex_value d) of
        (Some h, Some l) \<Rightarrow> word_of_nat (16 * h + l) # buffer_from_hex cs
      | _ \<Rightarrow> [])"
| "buffer_from_hex cs = []"

text \<open>\<^verbatim>\<open>Buffer.from(str, "utf-8")\<close> on a string of code units below 128.\<close>

definition buffer_from_utf8 :: "string \<Rightarrow> byte list" where
  "buffer_from_utf8 str = map (\<lambda>c. word_of_nat (of_char c)) str"

subsection \<open>web3-utils: toBN on a string\<close>

definition stripHexPrefix :: "string \<Rightarrow> string" where
  "stripHexPrefix str = (if take 2 str = ''0x'' then drop 2 str else str)"

text \<open>
  \<^verbatim>\<open>toBN(str)\<close> is number-to-bn on a string argument: lower-case and trim, note a
  \<^verbatim>\<open>0x\<close> or \<^verbatim>\<open>-0x\<close> prefix, strip the prefix and a minus sign, then read the rest as
  hexadecimal or decimal digits, and throw when it is neither.
\<close>

definition toBN :: "string \<Rightarrow> error + int" where
  "toBN arg =
     (let formattedString = trim (toLowerCase arg);
          isHexPrefixed = (take 2 formattedString = ''0x'' \<or> take 3 formattedString = ''-0x'');
          stringArg0 = stripHexPrefix formattedString;
          negative = (take 1 stringArg0 = ''-'');
          stringArg1 = (if negative then stripHexPrefix (drop 1 stringArg0) else stringArg0);
          multiplier = (if negative then - 1 else 1 :: int);
          stringArg = (if stringArg1 = [] then ''0'' else stringArg1)
      in if (\<not> dec_match stringArg \<and> hex_match stringArg)
            \<or> alpha_hex_match stringArg
            \<or> (isHexPrefixed \<and> hex_match stringArg)
         then Inr (int (parse_hex stringArg) * multiplier)
         else if (dec_match stringArg \<or> stringArg = []) \<and> \<not> isHexPrefixed
         then Inr (parse_dec stringArg * multiplier)
         else Inl InvalidNumber)"

subsection \<open>SignatureCodec: stringifySignature and splitSignature\<close>

record signature =
  sig_s :: int
  sig_e :: int

definition stringifySignature :: "signature \<Rightarrow> string" where
  "stringifySignature sign =
     ''0x'' @ bn_toString_hex (sig_e sign) 64 @ bn_toString_hex (sig_s sign) 64"

definition splitSignature :: "string \<Rightarrow> error + signature" where
  "splitSignature sg =
     (let bytes = replace_first ''0x'' '''' sg in
      if length bytes \<noteq> 128 then Inl MalformedSignature
      else case toBN (''0x'' @ substr bytes 0 64) of
             Inl err \<Rightarrow> Inl err
           | Inr ev \<Rightarrow>
               (case toBN (''0x'' @ substr bytes 64 64) of
                  Inl err \<Rightarrow> Inl err
                | Inr sv \<Rightarrow> Inr \<lparr>sig_s = sv, sig_e = ev\<rparr>))"


subsection \<open>Sequencing of calls that may throw\<close>

definition and_then :: "error + 'a \<Rightarrow> ('a \<Rightarrow> error + 'b) \<Rightarrow> error + 'b" where
  "and_then m f = (case m of Inl err \<Rightarrow> Inl err | Inr v \<Rightarrow> f v)"

subsection \<open>The libraries behind \<^verbatim>\<open>curve\<close>, \<^verbatim>\<open>keccak256\<close> and \<^verbatim>\<open>soliditySha3\<close>\<close>

text \<open>A point of elliptic: the point at infinity (\<^verbatim>\<open>inf\<close> set, null coordinates) or a
  pair of coordinates. A pair need not satisfy the curve equation.\<close>

datatype point = Infinity | Affine int int

record sign_param =
  sp_name :: string
  sp_type :: string
  sp_value :: string

text \<open>An argument of \<^verbatim>\<open>soliditySha3\<close>: a plain string, or an object with a type and a value.\<close>

datatype sha3_arg = Plain string | Typed sign_param

text \<open>
  Modelled from the spec: the curve object \<^verbatim>\<open>new EC("secp256k1")\<close> of elliptic and the
  hash functions of web3-utils are not under src/. The spec describes them as the field
  prime and group order of the curve, its generator \<open>G\<close>, point addition, scalar
  multiplication and point validation, "a 256-bit cryptographic hash" and "a canonical
  typed-ABI-style hash (order-sensitive, type-tag-sensitive)". They are the fields of this
  record; the functions below take the record as their first argument. Addition,
  multiplication and validation are total on points, as they are in elliptic for points of
  one curve; what multiplication does with a negative scalar is left to the field.
\<close>

record lib =
  curve_p :: int                                      \<comment> \<open>\<^verbatim>\<open>curve.curve.p\<close>\<close>
  curve_n :: int                                      \<comment> \<open>\<^verbatim>\<open>curve.n\<close>\<close>
  curve_g :: point                                    \<comment> \<open>\<^verbatim>\<open>curve.g\<close>\<close>
  point_add :: "point \<Rightarrow> point \<Rightarrow> point"              \<comment> \<open>\<^verbatim>\<open>p1.add(p2)\<close>\<close>
  point_mul :: "point \<Rightarrow> int \<Rightarrow> point"                \<comment> \<open>\<^verbatim>\<open>p.mul(k)\<close>\<close>
  point_validate :: "point \<Rightarrow> bool"                    \<comment> \<open>\<^verbatim>\<open>p.validate()\<close>, \<^verbatim>\<open>curve.curve.validate(p)\<close>\<close>
  keccak :: "byte list \<Rightarrow> 256 word"                   \<comment> \<open>the 32-byte Keccak digest\<close>
  encodePacked :: "sha3_arg list \<Rightarrow> error + byte list" \<comment> \<open>the packing inside \<^verbatim>\<open>soliditySha3\<close>\<close>

text \<open>The order of secp256k1, the curve the source constructs.\<close>

definition secp256k1_n :: int where
  "secp256k1_n = 0xFFFFFFFFFFFFFFFFFFFFFFFFFFFFFFFEBAAEDCE6AF48A03BBFD25E8CD0364141"

text \<open>\<^verbatim>\<open>keccak256(buffer)\<close> of web3-utils returns the digest as \<^verbatim>\<open>0x\<close> and 64
  hexadecimal digits. (web3-utils answers \<^verbatim>\<open>null\<close> where the digest is that of the empty input;
  no buffer hashed here is empty, and a digest equal to it would be a collision of the hash
  function. The model does not follow that case.)\<close>

definition keccak256 :: "lib \<Rightarrow> byte list \<Rightarrow> string" where
  "keccak256 L buf = ''0x'' @ bn_toString_hex (uint (keccak L buf)) 64"

definition soliditySha3 :: "lib \<Rightarrow> sha3_arg list \<Rightarrow> error + string" where
  "soliditySha3 L args = and_then (encodePacked L args) (\<lambda>packed. Inr (keccak256 L packed))"

text \<open>\<^verbatim>\<open>p.getX()\<close> and \<^verbatim>\<open>p.getY()\<close> read a coordinate, which is null at infinity.\<close>

definition getX :: "point \<Rightarrow> error + int" where
  "getX pt = (case pt of Infinity \<Rightarrow> Inl TypeError | Affine x y \<Rightarrow> Inr x)"

definition getY :: "point \<Rightarrow> error + int" where
  "getY pt = (case pt of Infinity \<Rightarrow> Inl TypeError | Affine x y \<Rightarrow> Inr y)"

text \<open>\<^verbatim>\<open>p.encode("hex", compact)\<close>: the byte 04 and both coordinates, or the byte 02 or 03
  and the first coordinate, each coordinate on as many bytes as the field prime has.\<close>

definition point_encode :: "lib \<Rightarrow> point \<Rightarrow> bool \<Rightarrow> error + string" where
  "point_encode L pt compact =
     (let len = byteLength (curve_p L) in
      and_then (getX pt) (\<lambda>x.
      and_then (bn_toBuffer_be x (Some len)) (\<lambda>xb.
      and_then (getY pt) (\<lambda>y.
        if compact then Inr (buffer_toString_hex ((if y mod 2 = 0 then 2 else 3) # xb))
        else and_then (bn_toBuffer_be y (Some len)) (\<lambda>yb.
               Inr (buffer_toString_hex (4 # xb @ yb)))))))"

text \<open>\<^verbatim>\<open>toChecksumAddress(address)\<close> of web3-utils: the address must match
  \<^verbatim>\<open>/^(0x)?[0-9a-f]{40}$/i\<close>; a digit is written in upper case where the digit at the
  same place of the hash of the lower-case address is above 7.\<close>

definition address_match :: "string \<Rightarrow> bool" where
  "address_match address = (let a = strip_0x_ci address in length a = 40 \<and> list_all is_hex_char a)"

definition toChecksumAddress :: "lib \<Rightarrow> string \<Rightarrow> error + string" where
  "toChecksumAddress L address =
     (if \<not> address_match address then Inl InvalidAddress
      else let a = strip_0x_ci (toLowerCase address);
               addressHash = strip_0x_ci (keccak256 L (buffer_from_utf8 a))
           in Inr (''0x'' @ map (\<lambda>(c, h). if (case hex_value h of Some v \<Rightarrow> 7 < v | None \<Rightarrow> False)
                                           then toUpperCase_char c else c)
                                (zip a addressHash)))"

subsection \<open>The functions of src/utils.js\<close>

text \<open>validatePublicKey on a point. (For a string argument the source calls
  \<^verbatim>\<open>keyFromPublic\<close>, which the file does not define; public keys are points here.)\<close>

definition validatePublicKey :: "lib \<Rightarrow> point \<Rightarrow> bool" where
  "validatePublicKey L publicKey = point_validate L publicKey"

definition bn2hex :: "int \<Rightarrow> nat option \<Rightarrow> error + string" where
  "bn2hex num byteLen =
     and_then (bn_toBuffer_be num byteLen) (\<lambda>buf. Inr (''0x'' @ buffer_toString_hex buf))"

definition pub2addr :: "lib \<Rightarrow> point \<Rightarrow> error + string" where
  "pub2addr L publicKey =
     and_then (point_encode L publicKey False) (\<lambda>encoded.
       let pubKeyHex = drop 2 encoded;
           pub_hash = keccak256 L (buffer_from_hex pubKeyHex)
       in toChecksumAddress L (''0x'' @ substr_last pub_hash 40))"

record pub_json =
  pj_address :: "string option"
  pj_encoded :: "string option"
  pj_x :: string
  pj_yParity :: string

definition pub2json :: "lib \<Rightarrow> point \<Rightarrow> bool \<Rightarrow> error + pub_json" where
  "pub2json L pubkey minimal =
     and_then (if minimal then Inr (None, None)
               else and_then (pub2addr L pubkey) (\<lambda>addr.
                    and_then (point_encode L pubkey True) (\<lambda>enc. Inr (Some addr, Some enc))))
       (\<lambda>extra.
     and_then (getX pubkey) (\<lambda>x.
     and_then (bn_toBuffer_be x (Some 32)) (\<lambda>xb.
     and_then (getY pubkey) (\<lambda>y.
       Inr \<lparr>pj_address = fst extra, pj_encoded = snd extra,
            pj_x = ''0x'' @ buffer_toString_hex xb,
            pj_yParity = bn_toString_dec (y mod 2)\<rparr>))))"

definition schnorrHash :: "lib \<Rightarrow> point \<Rightarrow> string \<Rightarrow> string \<Rightarrow> error + string" where
  "schnorrHash L signingPublicKey nonceTimesGeneratorAddress msg =
     and_then (getX signingPublicKey) (\<lambda>x.
     and_then (bn_toBuffer_be x (Some 32)) (\<lambda>xb.
     and_then (getY signingPublicKey) (\<lambda>y.
       let totalBuff = xb
             @ buffer_from_hex (if y mod 2 = 0 then ''00'' else ''01'')
             @ buffer_from_hex (strip_0x_ci msg)
             @ buffer_from_hex (strip_0x_ci nonceTimesGeneratorAddress)
       in Inr (keccak256 L totalBuff))))"

definition schnorrSign :: "lib \<Rightarrow> int \<Rightarrow> point \<Rightarrow> int \<Rightarrow> point \<Rightarrow> string \<Rightarrow> error + signature" where
  "schnorrSign L signingShare signingPubKey nonceShare noncePublicKey msg =
     and_then (pub2addr L noncePublicKey) (\<lambda>nonceTimesGeneratorAddress.
     and_then (schnorrHash L signingPubKey nonceTimesGeneratorAddress msg) (\<lambda>h.
     and_then (toBN h) (\<lambda>e.
       let s = (nonceShare - signingShare * e) mod curve_n L
       in Inr \<lparr>sig_s = s, sig_e = e\<rparr>)))"

definition pointAdd :: "lib \<Rightarrow> point \<Rightarrow> point \<Rightarrow> point" where
  "pointAdd L point1 point2 =
     (let result = point_add L point1 point2 in
      if (point_validate L point1 \<and> point_validate L point2) = False then curve_g L
      else result)"

text \<open>The \<^verbatim>\<open>sig\<close> argument of schnorrVerify is a string or an object with \<open>e\<close> and \<open>s\<close>.\<close>

datatype sig_arg = SigString string | SigObject signature

definition schnorrVerify :: "lib \<Rightarrow> point \<Rightarrow> string \<Rightarrow> sig_arg \<Rightarrow> error + bool" where
  "schnorrVerify L signingPublicKey msg sg =
     and_then (case sg of SigString str \<Rightarrow> splitSignature str | SigObject obj \<Rightarrow> Inr obj) (\<lambda>sig.
       if \<not> validatePublicKey L signingPublicKey then Inr False
       else
         let s = sig_s sig mod curve_n L;
             r_v = pointAdd L (point_mul L (curve_g L) s) (point_mul L signingPublicKey (sig_e sig))
         in and_then (pub2addr L r_v) (\<lambda>nonceTimesGeneratorAddress.
            and_then (schnorrHash L signingPublicKey nonceTimesGeneratorAddress msg) (\<lambda>e_v.
            and_then (toBN e_v) (\<lambda>ev. Inr (ev = sig_e sig)))))"


subsection \<open>The signing pipeline: runMuonApp\<close>

record request =
  rq_app :: string
  rq_method :: string
  rq_params :: "(string \<times> string) list option"   \<comment> \<open>\<open>None\<close>: the request has no \<^verbatim>\<open>params\<close>\<close>

record response_data =
  rd_params :: "(string \<times> string) list"
  rd_timestamp :: int
  rd_signParams :: "sign_param list option"        \<comment> \<open>absent until the module has answered\<close>

record signature_entry =
  se_owner :: string
  se_ownerPubKey :: pub_json
  se_signature :: string

record response =
  rs_reqId :: "string option"                      \<comment> \<open>\<open>None\<close> is \<^verbatim>\<open>null\<close>\<close>
  rs_app :: string
  rs_appId :: string
  rs_method :: string
  rs_data :: response_data
  rs_signatures :: "signature_entry list option"   \<comment> \<open>absent until the response is signed\<close>

text \<open>A computation module \<^verbatim>\<open>./muon-apps/<app>.js\<close>: its \<^verbatim>\<open>onRequest\<close> and
  \<^verbatim>\<open>signParams\<close>, either of which may throw.\<close>

record 'r muon_app =
  onRequest :: "response \<Rightarrow> error + 'r"
  signParams :: "response \<Rightarrow> 'r \<Rightarrow> error + sign_param list"

text \<open>
  What runMuonApp reads from outside: the modules that \<^verbatim>\<open>require\<close> can resolve, by path;
  \<^verbatim>\<open>Date.now()\<close>; the private scalars of the two \<^verbatim>\<open>curve.genKeyPair()\<close> calls (the request
  id and the nonce); and the private scalar of \<^verbatim>\<open>curve.keyFromPrivate(process.env.PRIVATE_KEY)\<close>.
\<close>

record 'r env =
  modules :: "string \<Rightarrow> 'r muon_app option"
  date_now :: int
  reqId_private :: int
  nonce_private :: int
  account_private :: int

definition moduleIsAvailable :: "'r env \<Rightarrow> string \<Rightarrow> bool" where
  "moduleIsAvailable E path = (case modules E path of Some m \<Rightarrow> True | None \<Rightarrow> False)"

definition runMuonApp :: "lib \<Rightarrow> 'r env \<Rightarrow> request \<Rightarrow> error + response" where
  "runMuonApp L E req =
     (let app = rq_app req;
          method = rq_method req;
          params = (case rq_params req of None \<Rightarrow> [] | Some ps \<Rightarrow> ps);
          appPath = ''./muon-apps/'' @ app @ ''.js''
      in if \<not> moduleIsAvailable E appPath then Inl AppNotFound
      else
        and_then (soliditySha3 L [Plain (app @ ''.js'')]) (\<lambda>appHash.
        let appId = bn_toString_dec (int (parse_hex (strip_0x_ci appHash)));
            response0 = \<lparr>rs_reqId = None, rs_app = app, rs_appId = appId, rs_method = method,
                         rs_data = \<lparr>rd_params = params, rd_timestamp = date_now E div 1000,
                                    rd_signParams = None\<rparr>,
                         rs_signatures = None\<rparr>
        in and_then (case modules E appPath of None \<Rightarrow> Inl AppNotFound | Some m \<Rightarrow> Inr m) (\<lambda>muonApp.
           and_then (onRequest muonApp response0) (\<lambda>onRequestResult.
           and_then (signParams muonApp response0 onRequestResult) (\<lambda>appSignParams.
           and_then (soliditySha3 L (map Typed appSignParams)) (\<lambda>hashSecurityParams.
           let reqId = ''0x'' @ bn_toString_hex (reqId_private E) 2;
               response1 = response0\<lparr>rs_reqId := Some reqId\<rparr>;
               allSignParams =
                 [\<lparr>sp_name = ''appId'', sp_type = ''uint256'', sp_value = rs_appId response1\<rparr>,
                  \<lparr>sp_name = ''reqId'', sp_type = ''uint256'', sp_value = reqId\<rparr>]
                 @ appSignParams;
               response2 = response1\<lparr>rs_data := (rs_data response1)\<lparr>rd_signParams := Some allSignParams\<rparr>\<rparr>
           in and_then (soliditySha3 L (map Typed allSignParams)) (\<lambda>hashToBeSigned.
              let noncePub = point_mul L (curve_g L) (nonce_private E);
                  verifyingPubKey = point_mul L (curve_g L) (account_private E)
              in and_then (schnorrSign L (account_private E) verifyingPubKey
                             (nonce_private E) noncePub hashToBeSigned) (\<lambda>sig.
                 and_then (pub2addr L verifyingPubKey) (\<lambda>owner.
                 and_then (pub2json L verifyingPubKey True) (\<lambda>ownerPubKey.
                 and_then (bn2hex (sig_s sig) None) (\<lambda>sigHex.
                   Inr (response2\<lparr>rs_signatures :=
                          Some [\<lparr>se_owner = owner, se_ownerPubKey = ownerPubKey,
                                 se_signature = sigHex\<rparr>]\<rparr>))))))))))))"

subsection \<open>What the functions rely on from the curve library\<close>

text \<open>
  The facts about the curve object that signing and verification use, for non-negative
  scalars: the group order is positive and the field prime fits 32 bytes; every multiple
  of the generator passes validation; multiplying a multiple of the generator multiplies
  the scalars; adding two multiples adds the scalars; scalars act modulo the group order;
  and a multiple by a scalar in \<open>(0, n)\<close> is a finite point with reduced coordinates.
  These are the group laws of secp256k1 as elliptic implements them.
\<close>

definition curve_ok :: "lib \<Rightarrow> bool" where
  "curve_ok L \<longleftrightarrow>
     0 < curve_n L \<and> curve_p L \<le> 2 ^ 256 \<and>
     (\<forall>a\<ge>0. point_validate L (point_mul L (curve_g L) a)) \<and>
     (\<forall>a\<ge>0. \<forall>b\<ge>0. point_mul L (point_mul L (curve_g L) a) b = point_mul L (curve_g L) (a * b)) \<and>
     (\<forall>a\<ge>0. \<forall>b\<ge>0. point_add L (point_mul L (curve_g L) a) (point_mul L (curve_g L) b)
                      = point_mul L (curve_g L) (a + b)) \<and>
     (\<forall>a\<ge>0. point_mul L (curve_g L) (a mod curve_n L) = point_mul L (curve_g L) a) \<and>
     (\<forall>a. 0 < a \<and> a < curve_n L \<longrightarrow>
          (\<exists>x y. point_mul L (curve_g L) a = Affine x y
                 \<and> 0 \<le> x \<and> x < curve_p L \<and> 0 \<le> y \<and> y < curve_p L))"

subsection \<open>A small instance of the libraries\<close>

text \<open>
  The curve \<open>y\<^sup>2 = x\<^sup>3 + 7\<close> of secp256k1 over the field of 13 elements has 7 points and
  is generated by \<open>(7, 5)\<close>. With the textbook affine arithmetic it is an instance of the
  record \<open>lib\<close> on which every function above can be evaluated; the hash of the instance
  adds up the bytes, and its packer writes the characters of every value.
\<close>

definition inv_mod :: "int \<Rightarrow> int \<Rightarrow> int" where
  "inv_mod p x = (x mod p) ^ nat (p - 2) mod p"

definition affine_add :: "int \<Rightarrow> int \<Rightarrow> point \<Rightarrow> point \<Rightarrow> point" where
  "affine_add p a P Q =
     (case P of
        Infinity \<Rightarrow> Q
      | Affine x1 y1 \<Rightarrow>
          (case Q of
             Infinity \<Rightarrow> P
           | Affine x2 y2 \<Rightarrow>
               if x1 = x2 \<and> y1 = y2 then
                 (if (2 * y1) mod p = 0 then Infinity
                  else let c = ((3 * x1 * x1 + a) * inv_mod p (2 * y1)) mod p;
                           nx = (c * c - 2 * x1) mod p;
                           ny = (c * (x1 - nx) - y1) mod p
                       in Affine nx ny)
               else if x1 = x2 then Infinity
               else let c = ((y1 - y2) * inv_mod p (x1 - x2)) mod p;
                        nx = (c * c - x1 - x2) mod p;
                        ny = (c * (x1 - nx) - y1) mod p
                    in Affine nx ny))"

function affine_mul_nat :: "int \<Rightarrow> int \<Rightarrow> point \<Rightarrow> nat \<Rightarrow> point" where
  "affine_mul_nat p a P k =
     (if k = 0 then Infinity
      else let h = affine_mul_nat p a (affine_add p a P P) (k div 2)
           in if odd k then affine_add p a h P else h)"
  by pat_completeness auto
termination
  by (relation "measure (\<lambda>(p, a, P, k). k)") auto

declare affine_mul_nat.simps [simp del]

definition affine_mul :: "int \<Rightarrow> int \<Rightarrow> point \<Rightarrow> int \<Rightarrow> point" where
  "affine_mul p a P k = affine_mul_nat p a P (nat k)"

definition on_curve :: "int \<Rightarrow> int \<Rightarrow> int \<Rightarrow> point \<Rightarrow> bool" where
  "on_curve p a b P =
     (case P of Infinity \<Rightarrow> True
      | Affine x y \<Rightarrow> (y * y - (x * x * x + a * x + b)) mod p = 0)"

definition tiny_keccak :: "byte list \<Rightarrow> 256 word" where
  "tiny_keccak buf = word_of_nat (sum_list (map unat buf))"

definition tiny_encodePacked :: "sha3_arg list \<Rightarrow> error + byte list" where
  "tiny_encodePacked args =
     Inr (concat (map (\<lambda>arg. case arg of Plain str \<Rightarrow> buffer_from_utf8 str
                                     | Typed f \<Rightarrow> buffer_from_utf8 (sp_value f)) args))"

definition tiny :: lib where
  "tiny = \<lparr>curve_p = 13, curve_n = 7, curve_g = Affine 7 5,
           point_add = affine_add 13 0, point_mul = affine_mul 13 0,
           point_validate = on_curve 13 0 7,
           keccak = tiny_keccak, encodePacked = tiny_encodePacked\<rparr>"

text \<open>A module that signs one field, and the environment of one request.\<close>

definition tiny_app :: "unit muon_app" where
  "tiny_app = \<lparr>onRequest = (\<lambda>r. Inr ()),
               signParams = (\<lambda>r u. Inr [\<lparr>sp_name = ''price'', sp_type = ''uint256'', sp_value = ''42''\<rparr>])\<rparr>"

definition tiny_env :: "unit env" where
  "tiny_env = \<lparr>modules = (\<lambda>path. if path = ''./muon-apps/price.js'' then Some tiny_app else None),
               date_now = 1700000000123, reqId_private = 5, nonce_private = 5,
               account_private = 2\<rparr>"

definition tiny_request :: request where
  "tiny_request = \<lparr>rq_app = ''price'', rq_method = ''get'', rq_params = None\<rparr>"


text \<open>The multiples \<open>0\<cdot>G, \<dots>, 6\<cdot>G\<close> of the generator of the small curve.\<close>

definition tiny_multiple :: "nat \<Rightarrow> point" where
  "tiny_multiple i =
     [Infinity, Affine 7 5, Affine 8 5, Affine 11 8, Affine 11 5, Affine 8 8, Affine 7 8] ! i"

text \<open>A message digest, the signature \<open>(e, s) = (67, 4)\<close> in the wire format, and the
  response of the request above.\<close>

definition tiny_msg :: string where
  "tiny_msg = ''0x000000000000000000000000000000000000000000000000000000000000002a''"

definition tiny_sig_string :: string where
  "tiny_sig_string = ''0x0000000000000000000000000000000000000000000000000000000000000043''
                     @ ''0000000000000000000000000000000000000000000000000000000000000004''"

definition tiny_response :: response where
  "tiny_response =
     \<lparr>rs_reqId = Some ''0x05'', rs_app = ''price'', rs_appId = ''798'', rs_method = ''get'',
      rs_data = \<lparr>rd_params = [], rd_timestamp = 1700000000,
                 rd_signParams = Some
                   [\<lparr>sp_name = ''appId'', sp_type = ''uint256'', sp_value = ''798''\<rparr>,
                    \<lparr>sp_name = ''reqId'', sp_type = ''uint256'', sp_value = ''0x05''\<rparr>,
                    \<lparr>sp_name = ''price'', sp_type = ''uint256'', sp_value = ''42''\<rparr>]\<rparr>,
      rs_signatures = Some
        [\<lparr>se_owner = ''0x000000000000000000000000000000000000000d'',
          se_ownerPubKey = \<lparr>pj_address = None, pj_encoded = None,
             pj_x = ''0x0000000000000000000000000000000000000000000000000000000000000008'',
             pj_yParity = ''1''\<rparr>,
          se_signature = ''0x02''\<rparr>]\<rparr>"

section \<open>Digits, numbers and text\<close>

lemma of_char_hex_digit: "d < 16 \<Longrightarrow> (of_char (hex_digit d) :: nat) = (if d < 10 then 48 + d else 87 + d)"
  by (simp add: hex_digit_def)

lemma hex_value_hex_digit: "d < 16 \<Longrightarrow> hex_value (hex_digit d) = Some d"
  by (simp add: hex_value_def of_char_hex_digit Let_def)

lemma is_lower_hex_hex_digit: "d < 16 \<Longrightarrow> is_lower_hex (hex_digit d)"
  by (simp add: is_lower_hex_def of_char_hex_digit Let_def)

lemma is_lower_hex_imp_hex: "is_lower_hex c \<Longrightarrow> is_hex_char c"
  by (auto simp: is_lower_hex_def is_hex_char_def hex_value_def Let_def)

lemma hex_char_not_space: "is_hex_char c \<Longrightarrow> \<not> is_space c"
  by (auto simp: is_hex_char_def hex_value_def is_space_def Let_def split: if_splits)

lemma hex_char_lower: "is_hex_char c \<Longrightarrow> is_lower_hex (toLowerCase_char c)"
  by (auto simp: is_hex_char_def hex_value_def is_lower_hex_def toLowerCase_char_def Let_def split: if_splits)

lemma hex_value_lower: "is_hex_char c \<Longrightarrow> hex_value (toLowerCase_char c) = hex_value c"
  by (auto simp: is_hex_char_def hex_value_def toLowerCase_char_def Let_def split: if_splits)

lemma hex_char_not_minus: "is_hex_char c \<Longrightarrow> c \<noteq> CHR ''-''"
  by (auto simp: is_hex_char_def hex_value_def Let_def split: if_splits)


lemma parse_hex_Nil: "parse_hex [] = 0"
  by (simp add: parse_hex_def)

lemma parse_hex_snoc: "parse_hex (cs @ [c]) = 16 * parse_hex cs + (case hex_value c of Some v \<Rightarrow> v | None \<Rightarrow> 0)"
  by (simp add: parse_hex_def)

lemma parse_hex_to_hex: "parse_hex (to_hex k) = k"
proof (induction k rule: to_hex.induct)
  case (1 k)
  show ?case
  proof (cases "k < 16")
    case True
    then show ?thesis
      using parse_hex_snoc [of "[]" "hex_digit k"]
      by (simp add: to_hex.simps [of k] parse_hex_Nil hex_value_hex_digit)
  next
    case False
    with 1 have "parse_hex (to_hex (k div 16)) = k div 16" by simp
    with False show ?thesis
      by (simp add: to_hex.simps [of k] parse_hex_snoc hex_value_hex_digit)
  qed
qed

lemma parse_hex_zeros: "parse_hex (replicate m CHR ''0'' @ cs) = parse_hex cs"
proof -
  have z: "hex_value CHR ''0'' = Some 0" by (simp add: hex_value_def)
  have "foldl (\<lambda>acc c. 16 * acc + (case hex_value c of Some v \<Rightarrow> v | None \<Rightarrow> 0)) 0 (replicate m CHR ''0'') = 0"
    by (induction m) (simp_all add: z)
  then show ?thesis by (simp add: parse_hex_def)
qed

lemma to_hex_lower: "list_all is_lower_hex (to_hex k)"
proof (induction k rule: to_hex.induct)
  case (1 k)
  then show ?case
    by (cases "k < 16") (simp_all add: to_hex.simps [of k] is_lower_hex_hex_digit)
qed

lemma to_hex_nonempty: "to_hex k \<noteq> []"
  by (simp add: to_hex.simps [of k])

lemma length_to_hex: "k < 16 ^ m \<Longrightarrow> 0 < m \<Longrightarrow> length (to_hex k) \<le> m"
proof (induction k arbitrary: m rule: to_hex.induct)
  case (1 k)
  show ?case
  proof (cases "k < 16")
    case True
    with 1(3) show ?thesis by (simp add: to_hex.simps [of k] Suc_leI)
  next
    case False
    obtain m' where m: "m = Suc m'" using 1(3) by (cases m) auto
    from False 1(2) m have "0 < m'" by (cases m') auto
    moreover from 1(2) m have "k div 16 < 16 ^ m'"
      by (simp add: less_mult_imp_div_less mult.commute)
    ultimately have "length (to_hex (k div 16)) \<le> m'" using 1(1) False by simp
    with False m show ?thesis by (simp add: to_hex.simps [of k])
  qed
qed

lemma parse_hex_bound: "parse_hex cs < 16 ^ length cs"
proof (induction cs rule: rev_induct)
  case Nil
  then show ?case by (simp add: parse_hex_Nil)
next
  case (snoc c cs)
  have "(case hex_value c of Some v \<Rightarrow> v | None \<Rightarrow> 0) < 16"
    by (auto simp: hex_value_def Let_def split: option.splits if_splits)
  with snoc show ?case by (simp add: parse_hex_snoc)
qed

lemma dropWhile_id: "xs \<noteq> [] \<Longrightarrow> \<not> P (hd xs) \<Longrightarrow> dropWhile P xs = xs"
  by (cases xs) auto

lemma trim_0x:
  assumes "list_all is_hex_char cs"
  shows "trim (''0x'' @ cs) = ''0x'' @ cs"
proof -
  have a: "\<not> is_space CHR ''0''" "\<not> is_space CHR ''x''" by (simp_all add: is_space_def)
  have "\<not> is_space (hd (rev (''0x'' @ cs)))"
  proof (cases "cs = []")
    case True
    then show ?thesis using a by simp
  next
    case False
    then have "hd (rev (''0x'' @ cs)) = last cs" by (simp add: hd_rev)
    moreover have "is_hex_char (last cs)" using assms False by (simp add: list_all_iff)
    ultimately show ?thesis by (simp add: hex_char_not_space)
  qed
  then have "dropWhile is_space (rev (''0x'' @ cs)) = rev (''0x'' @ cs)"
    by (intro dropWhile_id) simp_all
  moreover have "dropWhile is_space (''0x'' @ cs) = ''0x'' @ cs" using a by simp
  ultimately show ?thesis unfolding trim_def by (simp only: rev_rev_ident)
qed

lemma toLowerCase_0x: "toLowerCase (''0x'' @ cs) = ''0x'' @ map toLowerCase_char cs"
  by (simp add: toLowerCase_def toLowerCase_char_def)

lemma parse_hex_lower:
  "list_all is_hex_char cs \<Longrightarrow> parse_hex (map toLowerCase_char cs) = parse_hex cs"
proof (induction cs rule: rev_induct)
  case Nil
  then show ?case by simp
next
  case (snoc c cs)
  then show ?case by (simp add: parse_hex_snoc hex_value_lower)
qed

lemma toBN_hex:
  assumes ne: "cs \<noteq> []" and hex: "list_all is_hex_char cs"
  shows "toBN (''0x'' @ cs) = Inr (int (parse_hex cs))"
proof -
  define ls where "ls = map toLowerCase_char cs"
  have lhex: "list_all is_hex_char ls"
    using hex by (simp add: ls_def list_all_iff hex_char_lower is_lower_hex_imp_hex)
  have lne: "ls \<noteq> []" using ne by (simp add: ls_def)
  have "toLowerCase (''0x'' @ cs) = ''0x'' @ ls"
    by (simp only: toLowerCase_0x ls_def)
  with trim_0x [OF lhex] have fmt: "trim (toLowerCase (''0x'' @ cs)) = ''0x'' @ ls"
    by (simp only:)
  have nominus: "take 1 ls \<noteq> ''-''"
    using lne lhex by (cases ls) (auto simp: hex_char_not_minus)
  have strip: "stripHexPrefix (''0x'' @ ls) = ls" by (simp add: stripHexPrefix_def)
  have hm: "hex_match ls" using lne lhex by (simp add: hex_match_def)
  have val: "parse_hex ls = parse_hex cs" using hex by (simp add: ls_def parse_hex_lower)
  show ?thesis
    unfolding toBN_def fmt Let_def strip using nominus lne hm val by simp
qed

lemma toBN_not_malformed: "toBN str \<noteq> Inl MalformedSignature"
  by (simp add: toBN_def Let_def)

lemma length_bn_toString_hex_64:
  assumes "0 \<le> v" "v < 2 ^ 256"
  shows "length (bn_toString_hex v 64) = 64"
proof -
  have "nat \<bar>v\<bar> < 16 ^ 64" using assms by (simp add: nat_less_iff)
  then have "length (to_hex (nat \<bar>v\<bar>)) \<le> 64" by (rule length_to_hex) simp
  moreover have "0 < length (to_hex (nat \<bar>v\<bar>))" using to_hex_nonempty by simp
  ultimately show ?thesis using assms(1)
    by (cases "length (to_hex (nat \<bar>v\<bar>)) = 64") (simp_all add: bn_toString_hex_def Let_def)
qed

lemma bn_toString_hex_lower: "0 \<le> v \<Longrightarrow> list_all is_lower_hex (bn_toString_hex v k)"
proof -
  have "is_lower_hex CHR ''0''" by (simp add: is_lower_hex_def)
  then show "0 \<le> v \<Longrightarrow> list_all is_lower_hex (bn_toString_hex v k)"
    using to_hex_lower [of "nat v"] by (auto simp: bn_toString_hex_def Let_def list_all_iff)
qed

lemma parse_bn_toString_hex: "0 \<le> v \<Longrightarrow> int (parse_hex (bn_toString_hex v k)) = v"
  by (simp add: bn_toString_hex_def Let_def parse_hex_zeros parse_hex_to_hex)

lemma toBN_bn_toString_hex_64:
  assumes "0 \<le> v" "v < 2 ^ 256"
  shows "toBN (''0x'' @ bn_toString_hex v 64) = Inr v"
proof -
  have "bn_toString_hex v 64 \<noteq> []" using length_bn_toString_hex_64 [OF assms] by auto
  moreover have "list_all is_hex_char (bn_toString_hex v 64)"
    using bn_toString_hex_lower [OF assms(1), of 64] by (simp add: list_all_iff is_lower_hex_imp_hex)
  ultimately show ?thesis using toBN_hex parse_bn_toString_hex [OF assms(1)] by simp
qed

lemma replace_first_0x: "replace_first ''0x'' '''' (''0x'' @ cs) = cs"
  by simp

lemma split_stringify:
  assumes "0 \<le> ev" "ev < 2 ^ 256" "0 \<le> sv" "sv < 2 ^ 256"
  shows "splitSignature (stringifySignature \<lparr>sig_s = sv, sig_e = ev\<rparr>) = Inr \<lparr>sig_s = sv, sig_e = ev\<rparr>"
proof -
  let ?E = "bn_toString_hex ev 64" and ?S = "bn_toString_hex sv 64"
  have le: "length ?E = 64" and ls: "length ?S = 64"
    using assms by (simp_all add: length_bn_toString_hex_64)
  have r: "replace_first ''0x'' '''' (stringifySignature \<lparr>sig_s = sv, sig_e = ev\<rparr>) = ?E @ ?S"
    by (simp add: stringifySignature_def)
  have sub: "substr (?E @ ?S) 0 64 = ?E" "substr (?E @ ?S) 64 64 = ?S"
    using le ls by (simp_all add: substr_def)
  have te: "toBN (''0x'' @ substr (?E @ ?S) 0 64) = Inr ev"
    using assms by (simp only: sub toBN_bn_toString_hex_64)
  have ts: "toBN (''0x'' @ substr (?E @ ?S) 64 64) = Inr sv"
    using assms by (simp only: sub toBN_bn_toString_hex_64)
  show ?thesis
    unfolding splitSignature_def r Let_def te ts
    using le ls by simp
qed

section \<open>Buffers, digests and addresses\<close>

lemma length_to_bytes_le: "k < 256 ^ m \<Longrightarrow> length (to_bytes k) \<le> m"
proof (induction k arbitrary: m rule: to_bytes.induct)
  case (1 k)
  show ?case
  proof (cases "k = 0")
    case True
    then show ?thesis by (simp add: to_bytes.simps [of 0])
  next
    case False
    with 1(2) obtain m' where m: "m = Suc m'" by (cases m) auto
    from 1(2) m have "k div 256 < 256 ^ m'"
      by (simp add: less_mult_imp_div_less mult.commute)
    then have "length (to_bytes (k div 256)) \<le> m'" using 1(1) False by simp
    with False m show ?thesis by (simp add: to_bytes.simps [of k])
  qed
qed

lemma to_bytes_bound: "k < 256 ^ length (to_bytes k)"
proof (induction k rule: to_bytes.induct)
  case (1 k)
  show ?case
  proof (cases "k = 0")
    case True
    then show ?thesis by simp
  next
    case False
    then have ih: "k div 256 < 256 ^ length (to_bytes (k div 256))" using 1 by simp
    have "k < 256 * (k div 256 + 1)"
      using dividend_less_times_div [of 256 k] by simp
    also have "\<dots> \<le> 256 * 256 ^ length (to_bytes (k div 256))"
      using ih by (simp add: Suc_leI)
    finally show ?thesis using False by (simp add: to_bytes.simps [of k])
  qed
qed

lemma byteLength_le: "0 \<le> x \<Longrightarrow> x < 256 ^ m \<Longrightarrow> byteLength x \<le> m"
proof -
  assume "0 \<le> x" "x < 256 ^ m"
  then have "nat \<bar>x\<bar> < 256 ^ m" by (simp add: nat_less_iff)
  then show ?thesis unfolding byteLength_def by (rule length_to_bytes_le)
qed

lemma byteLength_mono: "0 \<le> x \<Longrightarrow> x < p \<Longrightarrow> byteLength x \<le> byteLength p"
proof -
  assume x: "0 \<le> x" "x < p"
  have "nat \<bar>p\<bar> < 256 ^ byteLength p" unfolding byteLength_def by (rule to_bytes_bound)
  with x have "nat \<bar>x\<bar> < 256 ^ byteLength p" by simp
  then show ?thesis unfolding byteLength_def by (rule length_to_bytes_le)
qed

lemma byteLength_pos: "0 < p \<Longrightarrow> 0 < byteLength p"
  using to_bytes.simps [of "nat p"] by (auto simp: byteLength_def)

lemma bn_toBuffer_be_fits:
  "byteLength x \<le> l \<Longrightarrow> 0 < l \<Longrightarrow>
   bn_toBuffer_be x (Some l) = Inr (replicate (l - byteLength x) 0 @ to_bytes (nat \<bar>x\<bar>))"
  by (simp add: bn_toBuffer_be_def Let_def)

lemma keccak256_shape:
  obtains h where "keccak256 L buf = ''0x'' @ h" "length h = 64" "list_all is_lower_hex h"
    "toBN (''0x'' @ h) = Inr (uint (keccak L buf))"
proof -
  let ?v = "uint (keccak L buf)"
  have r: "0 \<le> ?v" "?v < 2 ^ 256"
    using uint_lt2p [of "keccak L buf"] by simp_all
  show ?thesis
  proof
    show "keccak256 L buf = ''0x'' @ bn_toString_hex ?v 64" by (simp add: keccak256_def)
    show "length (bn_toString_hex ?v 64) = 64" using r by (rule length_bn_toString_hex_64)
    show "list_all is_lower_hex (bn_toString_hex ?v 64)" using r(1) by (rule bn_toString_hex_lower)
    show "toBN (''0x'' @ bn_toString_hex ?v 64) = Inr ?v" using r by (rule toBN_bn_toString_hex_64)
  qed
qed

lemma toBN_keccak256: "toBN (keccak256 L buf) = Inr (uint (keccak L buf))"
  by (rule keccak256_shape [of L buf]) simp

lemma toChecksumAddress_keccak256:
  "\<exists>addr. toChecksumAddress L (''0x'' @ substr_last (keccak256 L buf) 40) = Inr addr"
proof (rule keccak256_shape [of L buf])
  fix h assume h: "keccak256 L buf = ''0x'' @ h" "length h = 64" "list_all is_lower_hex h"
  have "substr_last (''0x'' @ h) 40 = drop 24 h" using h(2) by (simp add: substr_last_def)
  moreover have "list_all is_hex_char (drop 24 h)"
    using h(3) by (auto simp: list_all_iff is_lower_hex_imp_hex dest: in_set_dropD)
  ultimately have "address_match (''0x'' @ substr_last (keccak256 L buf) 40)"
    using h(1,2) by (simp add: address_match_def)
  then show ?thesis by (simp add: toChecksumAddress_def Let_def)
qed

lemma point_encode_ok:
  assumes "0 \<le> x" "x < curve_p L" "0 \<le> y" "y < curve_p L"
  shows "\<exists>enc. point_encode L (Affine x y) False = Inr enc"
proof -
  have p: "0 < byteLength (curve_p L)" using assms by (intro byteLength_pos) simp
  have "byteLength x \<le> byteLength (curve_p L)" "byteLength y \<le> byteLength (curve_p L)"
    using assms by (simp_all add: byteLength_mono)
  then show ?thesis
    using p by (simp add: point_encode_def Let_def getX_def getY_def and_then_def bn_toBuffer_be_fits)
qed

lemma pub2addr_ok:
  assumes "0 \<le> x" "x < curve_p L" "0 \<le> y" "y < curve_p L"
  shows "\<exists>addr. pub2addr L (Affine x y) = Inr addr"
proof -
  obtain enc where "point_encode L (Affine x y) False = Inr enc"
    using point_encode_ok [OF assms] by blast
  then show ?thesis
    using toChecksumAddress_keccak256 [of L "buffer_from_hex (drop 2 enc)"]
    by (simp add: pub2addr_def and_then_def Let_def)
qed

lemma schnorrHash_Affine:
  assumes "byteLength x \<le> 32"
  shows "schnorrHash L (Affine x y) addr m =
         Inr (keccak256 L (replicate (32 - byteLength x) 0 @ to_bytes (nat \<bar>x\<bar>)
               @ buffer_from_hex (if y mod 2 = 0 then ''00'' else ''01'')
               @ buffer_from_hex (strip_0x_ci m)
               @ buffer_from_hex (strip_0x_ci addr)))"
  using assms
  by (simp add: schnorrHash_def getX_def getY_def and_then_def bn_toBuffer_be_fits Let_def
           del: buffer_from_hex.simps)

lemma schnorrHash_ok:
  assumes "0 \<le> x" "x < 2 ^ 256"
  shows "\<exists>buf. schnorrHash L (Affine x y) addr m = Inr (keccak256 L buf)"
proof -
  have "x < 256 ^ 32" using assms(2) by simp
  then have "byteLength x \<le> 32" using assms(1) by (intro byteLength_le)
  then show ?thesis using schnorrHash_Affine by blast
qed


lemma length_buffer_toString_hex: "length (buffer_toString_hex buf) = 2 * length buf"
  by (induction buf) (simp_all add: buffer_toString_hex_def)

lemma bn2hex_minimal:
  "\<exists>str. bn2hex v None = Inr str \<and> length str = 2 + 2 * max 1 (byteLength v)"
proof -
  have "byteLength v = length (to_bytes (nat \<bar>v\<bar>))" by (simp add: byteLength_def)
  then show ?thesis
    by (simp add: bn2hex_def bn_toBuffer_be_def and_then_def Let_def length_buffer_toString_hex
                  max_def)
qed

lemma runMuonApp_Inr:
  assumes "runMuonApp L E req = Inr resp"
  obtains appHash muonApp result fields hsp hashToBeSigned sg owner opk sigHex
  where "soliditySha3 L [Plain (rq_app req @ ''.js'')] = Inr appHash"
    and "modules E (''./muon-apps/'' @ rq_app req @ ''.js'') = Some muonApp"
    and "onRequest muonApp
           \<lparr>rs_reqId = None, rs_app = rq_app req,
            rs_appId = bn_toString_dec (int (parse_hex (strip_0x_ci appHash))),
            rs_method = rq_method req,
            rs_data = \<lparr>rd_params = (case rq_params req of None \<Rightarrow> [] | Some ps \<Rightarrow> ps),
                       rd_timestamp = date_now E div 1000, rd_signParams = None\<rparr>,
            rs_signatures = None\<rparr> = Inr result"
    and "signParams muonApp
           \<lparr>rs_reqId = None, rs_app = rq_app req,
            rs_appId = bn_toString_dec (int (parse_hex (strip_0x_ci appHash))),
            rs_method = rq_method req,
            rs_data = \<lparr>rd_params = (case rq_params req of None \<Rightarrow> [] | Some ps \<Rightarrow> ps),
                       rd_timestamp = date_now E div 1000, rd_signParams = None\<rparr>,
            rs_signatures = None\<rparr> result = Inr fields"
    and "soliditySha3 L (map Typed fields) = Inr hsp"
    and "soliditySha3 L (map Typed
           ([\<lparr>sp_name = ''appId'', sp_type = ''uint256'',
              sp_value = bn_toString_dec (int (parse_hex (strip_0x_ci appHash)))\<rparr>,
             \<lparr>sp_name = ''reqId'', sp_type = ''uint256'',
              sp_value = ''0x'' @ bn_toString_hex (reqId_private E) 2\<rparr>] @ fields)) = Inr hashToBeSigned"
    and "schnorrSign L (account_private E) (point_mul L (curve_g L) (account_private E))
           (nonce_private E) (point_mul L (curve_g L) (nonce_private E)) hashToBeSigned = Inr sg"
    and "pub2addr L (point_mul L (curve_g L) (account_private E)) = Inr owner"
    and "pub2json L (point_mul L (curve_g L) (account_private E)) True = Inr opk"
    and "bn2hex (sig_s sg) None = Inr sigHex"
    and "resp = \<lparr>rs_reqId = Some (''0x'' @ bn_toString_hex (reqId_private E) 2), rs_app = rq_app req,
            rs_appId = bn_toString_dec (int (parse_hex (strip_0x_ci appHash))),
            rs_method = rq_method req,
            rs_data = \<lparr>rd_params = (case rq_params req of None \<Rightarrow> [] | Some ps \<Rightarrow> ps),
                       rd_timestamp = date_now E div 1000,
                       rd_signParams = Some
           ([\<lparr>sp_name = ''appId'', sp_type = ''uint256'',
              sp_value = bn_toString_dec (int (parse_hex (strip_0x_ci appHash)))\<rparr>,
             \<lparr>sp_name = ''reqId'', sp_type = ''uint256'',
              sp_value = ''0x'' @ bn_toString_hex (reqId_private E) 2\<rparr>] @ fields)\<rparr>,
            rs_signatures = Some [\<lparr>se_owner = owner, se_ownerPubKey = opk, se_signature = sigHex\<rparr>]\<rparr>"
  using assms
  unfolding runMuonApp_def Let_def and_then_def moduleIsAvailable_def
  by (auto split: if_splits sum.splits option.splits)

section \<open>The small instance\<close>

lemma below_7: "(i::nat) < 7 \<Longrightarrow> i = 0 \<or> i = 1 \<or> i = 2 \<or> i = 3 \<or> i = 4 \<or> i = 5 \<or> i = 6"
  by arith

lemma tiny_add_table:
  assumes "i < 7" "j < 7"
  shows "affine_add 13 0 (tiny_multiple i) (tiny_multiple j) = tiny_multiple ((i + j) mod 7)"
  using below_7 [OF assms(1)] below_7 [OF assms(2)]
  by (elim disjE; simp add: affine_add_def inv_mod_def tiny_multiple_def Let_def)

lemma tiny_on_curve:
  assumes "i < 7"
  shows "on_curve 13 0 7 (tiny_multiple i)"
  using below_7 [OF assms]
  by (elim disjE; simp add: on_curve_def tiny_multiple_def)

lemma tiny_finite:
  assumes "0 < i" "i < 7"
  shows "\<exists>x y. tiny_multiple i = Affine x y \<and> 0 \<le> x \<and> x < 13 \<and> 0 \<le> y \<and> y < 13"
  using below_7 [OF assms(2)] assms(1)
  by (elim disjE; simp add: tiny_multiple_def)

lemma tiny_mul_nat:
  "i < 7 \<Longrightarrow> affine_mul_nat 13 0 (tiny_multiple i) k = tiny_multiple ((i * k) mod 7)"
proof (induction k arbitrary: i rule: less_induct)
  case (less k)
  show ?case
  proof (cases "k = 0")
    case True
    then show ?thesis by (simp add: affine_mul_nat.simps [of _ _ _ 0] tiny_multiple_def)
  next
    case False
    have dbl: "affine_add 13 0 (tiny_multiple i) (tiny_multiple i) = tiny_multiple ((i + i) mod 7)"
      using less.prems by (simp add: tiny_add_table)
    have "k div 2 < k" using False by simp
    then have ih: "affine_mul_nat 13 0 (tiny_multiple ((i + i) mod 7)) (k div 2)
                   = tiny_multiple (((i + i) mod 7 * (k div 2)) mod 7)"
      by (rule less.IH) simp
    show ?thesis
    proof (cases "odd k")
      case True
      then have "2 * (k div 2) + 1 = k" by presburger
      then have k: "i * (2 * (k div 2) + 1) = i * k" by (simp only:)
      have "affine_mul_nat 13 0 (tiny_multiple i) k
            = affine_add 13 0 (tiny_multiple (((i + i) mod 7 * (k div 2)) mod 7)) (tiny_multiple i)"
        using False True by (simp add: affine_mul_nat.simps [of _ _ _ k] dbl ih Let_def)
      also have "\<dots> = tiny_multiple ((((i + i) mod 7 * (k div 2)) mod 7 + i) mod 7)"
        using less.prems by (intro tiny_add_table) simp_all
      also have "(((i + i) mod 7 * (k div 2)) mod 7 + i) mod 7 = ((i + i) * (k div 2) + i) mod 7"
        by (simp add: mod_simps)
      also have "(i + i) * (k div 2) + i = i * (2 * (k div 2) + 1)"
        by (simp add: algebra_simps)
      finally show ?thesis by (simp only: k)
    next
      case even: False
      then have "2 * (k div 2) = k" by presburger
      then have k: "i * (2 * (k div 2)) = i * k" by (simp only:)
      have "affine_mul_nat 13 0 (tiny_multiple i) k
            = tiny_multiple (((i + i) mod 7 * (k div 2)) mod 7)"
        using False even by (simp add: affine_mul_nat.simps [of _ _ _ k] dbl ih Let_def)
      also have "((i + i) mod 7 * (k div 2)) mod 7 = ((i + i) * (k div 2)) mod 7"
        by (simp add: mod_simps)
      also have "(i + i) * (k div 2) = i * (2 * (k div 2))"
        by (simp add: algebra_simps)
      finally show ?thesis by (simp only: k)
    qed
  qed
qed

lemma tiny_g: "curve_g tiny = tiny_multiple 1"
  by (simp add: tiny_def tiny_multiple_def)

lemma tiny_mul_g: "0 \<le> a \<Longrightarrow> point_mul tiny (curve_g tiny) a = tiny_multiple (nat a mod 7)"
  using tiny_mul_nat [of 1 "nat a"] by (simp add: tiny_g) (simp add: tiny_def affine_mul_def)

lemma tiny_curve_ok: "curve_ok tiny"
proof -
  have n: "curve_n tiny = 7" and p: "curve_p tiny = 13"
    and add: "point_add tiny = affine_add 13 0" and mul: "point_mul tiny = affine_mul 13 0"
    and val: "point_validate tiny = on_curve 13 0 7"
    by (simp_all add: tiny_def)
  have v: "\<forall>a\<ge>0. point_validate tiny (point_mul tiny (curve_g tiny) a)"
    by (simp add: tiny_mul_g val tiny_on_curve)
  have m: "\<forall>a\<ge>0. \<forall>b\<ge>0. point_mul tiny (point_mul tiny (curve_g tiny) a) b
             = point_mul tiny (curve_g tiny) (a * b)"
  proof (intro allI impI)
    fix a b :: int assume a: "0 \<le> a" and b: "0 \<le> b"
    have "point_mul tiny (tiny_multiple (nat a mod 7)) b = tiny_multiple ((nat a mod 7 * nat b) mod 7)"
      using tiny_mul_nat [of "nat a mod 7" "nat b"] by (simp add: mul affine_mul_def)
    moreover have "(nat a mod 7 * nat b) mod 7 = nat (a * b) mod 7"
      using a b by (simp add: nat_mult_distrib mod_simps)
    ultimately show "point_mul tiny (point_mul tiny (curve_g tiny) a) b
             = point_mul tiny (curve_g tiny) (a * b)"
      using a b by (simp add: tiny_mul_g)
  qed
  have s: "\<forall>a\<ge>0. \<forall>b\<ge>0. point_add tiny (point_mul tiny (curve_g tiny) a) (point_mul tiny (curve_g tiny) b)
                      = point_mul tiny (curve_g tiny) (a + b)"
  proof (intro allI impI)
    fix a b :: int assume a: "0 \<le> a" and b: "0 \<le> b"
    have "(nat a mod 7 + nat b mod 7) mod 7 = nat (a + b) mod 7"
      using a b by (simp add: nat_add_distrib mod_simps)
    then show "point_add tiny (point_mul tiny (curve_g tiny) a) (point_mul tiny (curve_g tiny) b)
                      = point_mul tiny (curve_g tiny) (a + b)"
      using a b by (simp add: tiny_mul_g add tiny_add_table)
  qed
  have r: "\<forall>a\<ge>0. point_mul tiny (curve_g tiny) (a mod curve_n tiny) = point_mul tiny (curve_g tiny) a"
  proof (intro allI impI)
    fix a :: int assume a: "0 \<le> a"
    have "nat (a mod 7) mod 7 = nat a mod 7"
      using a by (simp add: nat_mod_distrib)
    then show "point_mul tiny (curve_g tiny) (a mod curve_n tiny) = point_mul tiny (curve_g tiny) a"
      using a by (simp add: tiny_mul_g n)
  qed
  have f: "\<forall>a. 0 < a \<and> a < curve_n tiny \<longrightarrow>
          (\<exists>x y. point_mul tiny (curve_g tiny) a = Affine x y
                 \<and> 0 \<le> x \<and> x < curve_p tiny \<and> 0 \<le> y \<and> y < curve_p tiny)"
  proof (intro allI impI)
    fix a :: int assume a: "0 < a \<and> a < curve_n tiny"
    then have "0 < nat a" "nat a < 7" unfolding n by linarith+
    then show "\<exists>x y. point_mul tiny (curve_g tiny) a = Affine x y
                 \<and> 0 \<le> x \<and> x < curve_p tiny \<and> 0 \<le> y \<and> y < curve_p tiny"
      using tiny_finite [of "nat a"] a by (simp add: tiny_mul_g p)
  qed
  show ?thesis
    unfolding curve_ok_def using v m s r f by (simp add: n p)
qed

lemma tiny_addr_R: "pub2addr tiny (Affine 8 8) = Inr ''0x0000000000000000000000000000000000000010''"
  by code_simp

lemma tiny_addr_P: "pub2addr tiny (Affine 8 5) = Inr ''0x000000000000000000000000000000000000000d''"
  by code_simp

lemma tiny_hash_msg:
  "schnorrHash tiny (Affine 8 5) ''0x0000000000000000000000000000000000000010'' tiny_msg
   = Inr ''0x0000000000000000000000000000000000000000000000000000000000000043''"
  by code_simp

lemma tiny_toBN_43:
  "toBN ''0x0000000000000000000000000000000000000000000000000000000000000043'' = Inr 67"
  by code_simp

lemma tiny_g_4: "point_mul tiny (curve_g tiny) 4 = Affine 11 5"
  by (simp add: tiny_mul_g tiny_multiple_def)

lemma tiny_g_2: "point_mul tiny (curve_g tiny) 2 = Affine 8 5"
  by (simp add: tiny_mul_g tiny_multiple_def)

lemma tiny_g_5: "point_mul tiny (curve_g tiny) 5 = Affine 8 8"
  by (simp add: tiny_mul_g tiny_multiple_def)

lemma tiny_P_67: "point_mul tiny (Affine 8 5) 67 = Affine 7 5"
  using tiny_mul_nat [of 2 67] by (simp add: tiny_def affine_mul_def tiny_multiple_def)

lemma tiny_P_74: "point_mul tiny (Affine 8 5) 74 = Affine 7 5"
  using tiny_mul_nat [of 2 74] by (simp add: tiny_def affine_mul_def tiny_multiple_def)

lemma tiny_valid_P: "point_validate tiny (Affine 8 5)"
  by (simp add: tiny_def on_curve_def)

lemma tiny_pointAdd_4_1: "pointAdd tiny (Affine 11 5) (Affine 7 5) = Affine 8 8"
  by (simp add: pointAdd_def tiny_def on_curve_def affine_add_def inv_mod_def Let_def)


lemma tiny_verify_67:
  "schnorrVerify tiny (Affine 8 5) tiny_msg (SigObject \<lparr>sig_s = 4, sig_e = 67\<rparr>) = Inr True"
proof -
  have "curve_n tiny = 7" by (simp add: tiny_def)
  then show ?thesis
    by (simp add: schnorrVerify_def validatePublicKey_def tiny_valid_P tiny_g_4 tiny_P_67
          tiny_pointAdd_4_1 tiny_addr_R tiny_hash_msg tiny_toBN_43 and_then_def)
qed

lemma tiny_verify_74:
  "schnorrVerify tiny (Affine 8 5) tiny_msg (SigObject \<lparr>sig_s = 4, sig_e = 74\<rparr>) = Inr False"
proof -
  have "curve_n tiny = 7" by (simp add: tiny_def)
  then show ?thesis
    by (simp add: schnorrVerify_def validatePublicKey_def tiny_valid_P tiny_g_4 tiny_P_74
          tiny_pointAdd_4_1 tiny_addr_R tiny_hash_msg tiny_toBN_43 and_then_def)
qed

lemma tiny_appHash:
  "soliditySha3 tiny [Plain ''price.js'']
   = Inr ''0x000000000000000000000000000000000000000000000000000000000000031e''"
  by code_simp

lemma tiny_appId:
  "bn_toString_dec (int (parse_hex (strip_0x_ci
      ''0x000000000000000000000000000000000000000000000000000000000000031e''))) = ''798''"
  by code_simp

lemma tiny_hashSecurityParams:
  "soliditySha3 tiny [Typed \<lparr>sp_name = ''price'', sp_type = ''uint256'', sp_value = ''42''\<rparr>]
   = Inr ''0x0000000000000000000000000000000000000000000000000000000000000066''"
  by code_simp

lemma tiny_reqId: "bn_toString_hex 5 2 = ''05''"
  by code_simp

lemma tiny_hashToBeSigned:
  "soliditySha3 tiny
     [Typed \<lparr>sp_name = ''appId'', sp_type = ''uint256'', sp_value = ''798''\<rparr>,
      Typed \<lparr>sp_name = ''reqId'', sp_type = ''uint256'', sp_value = ''0x05''\<rparr>,
      Typed \<lparr>sp_name = ''price'', sp_type = ''uint256'', sp_value = ''42''\<rparr>]
   = Inr ''0x000000000000000000000000000000000000000000000000000000000000021b''"
  by code_simp

lemma tiny_hash_run:
  "schnorrHash tiny (Affine 8 5) ''0x0000000000000000000000000000000000000010''
     ''0x000000000000000000000000000000000000000000000000000000000000021b''
   = Inr ''0x0000000000000000000000000000000000000000000000000000000000000036''"
  by code_simp

lemma tiny_toBN_36:
  "toBN ''0x0000000000000000000000000000000000000000000000000000000000000036'' = Inr 54"
  by code_simp

lemma tiny_pub2json:
  "pub2json tiny (Affine 8 5) True
   = Inr \<lparr>pj_address = None, pj_encoded = None,
          pj_x = ''0x0000000000000000000000000000000000000000000000000000000000000008'',
          pj_yParity = ''1''\<rparr>"
  by code_simp

lemma tiny_bn2hex: "bn2hex 2 None = Inr ''0x02''"
  by code_simp

lemma tiny_sign_run:
  "schnorrSign tiny 2 (Affine 8 5) 5 (Affine 8 8)
     ''0x000000000000000000000000000000000000000000000000000000000000021b''
   = Inr \<lparr>sig_s = 2, sig_e = 54\<rparr>"
proof -
  have "curve_n tiny = 7" by (simp add: tiny_def)
  then show ?thesis
    by (simp add: schnorrSign_def tiny_addr_R tiny_hash_run tiny_toBN_36 and_then_def)
qed

lemma tiny_run: "runMuonApp tiny tiny_env tiny_request = Inr tiny_response"
proof -
  have sel: "rq_app tiny_request = ''price''" "rq_method tiny_request = ''get''"
    "rq_params tiny_request = None"
    "modules tiny_env ''./muon-apps/price.js'' = Some tiny_app"
    "date_now tiny_env = 1700000000123" "reqId_private tiny_env = 5"
    "nonce_private tiny_env = 5" "account_private tiny_env = 2"
    "\<And>r. onRequest tiny_app r = Inr ()"
    "\<And>r u. signParams tiny_app r u
       = Inr [\<lparr>sp_name = ''price'', sp_type = ''uint256'', sp_value = ''42''\<rparr>]"
    by (simp_all add: tiny_request_def tiny_env_def tiny_app_def)
  show ?thesis
    unfolding runMuonApp_def Let_def moduleIsAvailable_def sel
    apply (simp only: append.simps list.map option.case if_True not_True_eq_False if_False
       tiny_appHash and_then_def sum.case tiny_appId sel tiny_hashSecurityParams tiny_reqId
       response.simps response_data.simps
       tiny_hashToBeSigned tiny_g_2 tiny_g_5 tiny_sign_run tiny_addr_P tiny_pub2json
       signature.simps tiny_bn2hex)
    apply (simp add: tiny_response_def)
    done
qed

lemma tiny_sig_body:
  "length (replace_first ''0x'' '''' tiny_sig_string) = 128"
  "list_all is_hex_char (replace_first ''0x'' '''' tiny_sig_string)"
  by code_simp+

lemma tiny_sig_values:
  "int (parse_hex (substr (replace_first ''0x'' '''' tiny_sig_string) 0 64)) = 67"
  "int (parse_hex (substr (replace_first ''0x'' '''' tiny_sig_string) 64 64)) = 4"
  by code_simp+

section \<open>The claims\<close>

text \<open>
  Claim C1 (sign, then verify). Let the curve library satisfy \<open>curve_ok\<close>. For every private
  scalar \<open>d\<close> in \<open>[1, n)\<close> with public point \<open>P = d\<cdot>G\<close>, every nonce scalar \<open>k\<close> in
  \<open>[1, n)\<close> with nonce point \<open>R = k\<cdot>G\<close>, and every message \<open>m\<close> (a 32-byte digest or
  any other string), schnorrSign returns a signature and schnorrVerify returns true on it.
\<close>

theorem schnorrVerify_schnorrSign:
  assumes ok: "curve_ok L"
    and d: "1 \<le> d" "d < curve_n L" and k: "1 \<le> k" "k < curve_n L"
    and P: "P = point_mul L (curve_g L) d" and R: "R = point_mul L (curve_g L) k"
  shows "\<exists>sg. schnorrSign L d P k R m = Inr sg \<and> schnorrVerify L P m (SigObject sg) = Inr True"
proof -
  let ?G = "curve_g L" and ?n = "curve_n L"
  from ok have n: "0 < ?n" and p: "curve_p L \<le> 2 ^ 256"
    and val: "\<And>a. 0 \<le> a \<Longrightarrow> point_validate L (point_mul L ?G a)"
    and mm: "\<And>a b. 0 \<le> a \<Longrightarrow> 0 \<le> b \<Longrightarrow> point_mul L (point_mul L ?G a) b = point_mul L ?G (a * b)"
    and aa: "\<And>a b. 0 \<le> a \<Longrightarrow> 0 \<le> b \<Longrightarrow>
               point_add L (point_mul L ?G a) (point_mul L ?G b) = point_mul L ?G (a + b)"
    and rr: "\<And>a. 0 \<le> a \<Longrightarrow> point_mul L ?G (a mod ?n) = point_mul L ?G a"
    and ff: "\<And>a. 0 < a \<Longrightarrow> a < ?n \<Longrightarrow>
               \<exists>x y. point_mul L ?G a = Affine x y \<and> 0 \<le> x \<and> x < curve_p L \<and> 0 \<le> y \<and> y < curve_p L"
    unfolding curve_ok_def by blast+
  obtain xr yr where Rxy: "R = Affine xr yr" "0 \<le> xr" "xr < curve_p L" "0 \<le> yr" "yr < curve_p L"
    using ff [of k] k R by auto
  obtain xp yp where Pxy: "P = Affine xp yp" "0 \<le> xp" "xp < curve_p L"
    using ff [of d] d P by auto
  obtain addr where addr: "pub2addr L R = Inr addr"
    using pub2addr_ok [OF Rxy(2-5)] Rxy(1) by blast
  have "xp < 2 ^ 256" using Pxy(3) p by simp
  then obtain buf where h: "schnorrHash L P addr m = Inr (keccak256 L buf)"
    using schnorrHash_ok [OF Pxy(2)] Pxy(1) by blast
  define e where "e = uint (keccak L buf)"
  have e0: "0 \<le> e" by (simp add: e_def)
  have tb: "toBN (keccak256 L buf) = Inr e" by (simp add: toBN_keccak256 e_def)
  define s where "s = (k - d * e) mod ?n"
  have sign: "schnorrSign L d P k R m = Inr \<lparr>sig_s = s, sig_e = e\<rparr>"
    by (simp add: schnorrSign_def addr h tb and_then_def s_def Let_def)
  have s0: "0 \<le> s" and sm: "s mod ?n = s" using n by (simp_all add: s_def)
  have de: "0 \<le> d * e" using d e0 by simp
  have Pe: "point_mul L P e = point_mul L ?G (d * e)" using mm [of d e] d e0 P by simp
  have "(s + d * e) mod ?n = k mod ?n" by (simp add: s_def mod_simps)
  moreover have "0 \<le> s + d * e" using s0 de by simp
  ultimately have "point_mul L ?G (s + d * e) = point_mul L ?G k"
    using rr [of "s + d * e"] rr [of k] k by simp
  then have "point_add L (point_mul L ?G s) (point_mul L P e) = R"
    using aa [OF s0 de] Pe R by simp
  moreover have "point_validate L (point_mul L ?G s)" "point_validate L (point_mul L P e)"
    using val [OF s0] val [OF de] Pe by simp_all
  ultimately have rv: "pointAdd L (point_mul L ?G s) (point_mul L P e) = R"
    by (simp add: pointAdd_def)
  have vp: "validatePublicKey L P" using val [of d] d P by (simp add: validatePublicKey_def)
  have "schnorrVerify L P m (SigObject \<lparr>sig_s = s, sig_e = e\<rparr>) = Inr True"
    by (simp add: schnorrVerify_def vp sm rv addr h tb and_then_def Let_def)
  with sign show ?thesis by blast
qed

text \<open>On the small instance: private scalar 2, nonce scalar 5.\<close>

theorem schnorrVerify_schnorrSign_witness:
  "curve_ok tiny \<and> (1::int) \<le> 2 \<and> 2 < curve_n tiny \<and> (1::int) \<le> 5 \<and> 5 < curve_n tiny
   \<and> Affine 8 5 = point_mul tiny (curve_g tiny) 2 \<and> Affine 8 8 = point_mul tiny (curve_g tiny) 5
   \<and> (\<exists>sg. schnorrSign tiny 2 (Affine 8 5) 5 (Affine 8 8) tiny_msg = Inr sg
          \<and> schnorrVerify tiny (Affine 8 5) tiny_msg (SigObject sg) = Inr True)"
proof -
  have n: "curve_n tiny = 7" by (simp add: tiny_def)
  have P: "Affine 8 5 = point_mul tiny (curve_g tiny) 2" by (simp add: tiny_g_2)
  have R: "Affine 8 8 = point_mul tiny (curve_g tiny) 5" by (simp add: tiny_g_5)
  have "\<exists>sg. schnorrSign tiny 2 (Affine 8 5) 5 (Affine 8 8) tiny_msg = Inr sg
          \<and> schnorrVerify tiny (Affine 8 5) tiny_msg (SigObject sg) = Inr True"
    by (rule schnorrVerify_schnorrSign [OF tiny_curve_ok _ _ _ _ P R]) (simp_all add: n)
  with tiny_curve_ok n P R show ?thesis by simp
qed

text \<open>
  Claim C2, as the code has it. A signature string whose body, after the first \<^verbatim>\<open>0x\<close> is
  removed, does not have exactly 128 characters makes schnorrVerify raise the error of
  splitSignature: the string is decoded before the public key is looked at, and nothing
  catches the error. (The spec sentence has it return false.)
\<close>

theorem schnorrVerify_malformed_string:
  assumes "length (replace_first ''0x'' '''' str) \<noteq> 128"
  shows "schnorrVerify L P m (SigString str) = Inl MalformedSignature"
  using assms by (simp add: schnorrVerify_def splitSignature_def and_then_def Let_def)

theorem schnorrVerify_malformed_string_witness:
  "length (replace_first ''0x'' '''' ''0x1234'') \<noteq> 128
   \<and> schnorrVerify tiny (Affine 8 5) tiny_msg (SigString ''0x1234'') = Inl MalformedSignature"
  using schnorrVerify_malformed_string [of "''0x1234''" tiny "Affine 8 5" tiny_msg] by simp

text \<open>A valid public key and a four-digit signature string: the call raises, it does
  not return false.\<close>

theorem schnorrVerify_short_string_raises:
  "validatePublicKey tiny (Affine 8 5)
   \<and> length (replace_first ''0x'' '''' ''0x1234'') \<noteq> 128
   \<and> schnorrVerify tiny (Affine 8 5) tiny_msg (SigString ''0x1234'') = Inl MalformedSignature
   \<and> schnorrVerify tiny (Affine 8 5) tiny_msg (SigString ''0x1234'') \<noteq> Inr False"
  by (simp add: validatePublicKey_def tiny_valid_P schnorrVerify_def splitSignature_def
                and_then_def)

text \<open>
  Claim C3 (pointAdd). If both points pass validation, pointAdd returns the sum computed
  by the library; if either fails, it returns the generator. pointAdd is a total function
  of two points: it has no error result.
\<close>

theorem pointAdd_valid_or_generator:
  "(point_validate L P1 \<and> point_validate L P2 \<longrightarrow> pointAdd L P1 P2 = point_add L P1 P2)
   \<and> (\<not> (point_validate L P1 \<and> point_validate L P2) \<longrightarrow> pointAdd L P1 P2 = curve_g L)"
  by (simp add: pointAdd_def Let_def)

theorem pointAdd_valid_or_generator_witness:
  "point_validate tiny (Affine 7 5) \<and> point_validate tiny (Affine 8 5)
   \<and> pointAdd tiny (Affine 7 5) (Affine 8 5) = point_add tiny (Affine 7 5) (Affine 8 5)
   \<and> point_add tiny (Affine 7 5) (Affine 8 5) = Affine 11 8
   \<and> \<not> (point_validate tiny (Affine 1 1) \<and> point_validate tiny (Affine 8 5))
   \<and> pointAdd tiny (Affine 1 1) (Affine 8 5) = curve_g tiny"
proof -
  have v: "point_validate tiny (Affine 7 5)" "point_validate tiny (Affine 8 5)"
    "\<not> point_validate tiny (Affine 1 1)"
    by (simp_all add: tiny_def on_curve_def)
  have s: "point_add tiny (Affine 7 5) (Affine 8 5) = Affine 11 8"
    by (simp add: tiny_def affine_add_def inv_mod_def Let_def)
  show ?thesis
    using pointAdd_valid_or_generator [of tiny "Affine 7 5" "Affine 8 5"]
          pointAdd_valid_or_generator [of tiny "Affine 1 1" "Affine 8 5"] v s
    by simp
qed




text \<open>
  Claim C5, as the code has it. For a public key that passes validation and a signature
  object \<open>(e, s)\<close>, schnorrVerify returns true exactly when the address of
  \<open>R\<^sub>v = pointAdd(G\<cdot>(s mod n), P\<cdot>e)\<close> and the challenge hash are computed without error and
  the hash, read as an integer, is equal to the supplied \<open>e\<close>. The comparison is BN's
  \<^verbatim>\<open>eq\<close> on the integers; neither side is reduced modulo \<open>n\<close>. (The spec sentence has the
  two compared as scalars modulo \<open>n\<close>.)
\<close>

theorem schnorrVerify_raw_equality:
  assumes "validatePublicKey L P"
  shows "(schnorrVerify L P m (SigObject sg) = Inr True) =
         (\<exists>addr h. pub2addr L (pointAdd L (point_mul L (curve_g L) (sig_s sg mod curve_n L))
                                        (point_mul L P (sig_e sg))) = Inr addr
                 \<and> schnorrHash L P addr m = Inr h \<and> toBN h = Inr (sig_e sg))"
  using assms by (auto simp: schnorrVerify_def and_then_def Let_def split: sum.splits)

theorem schnorrVerify_raw_equality_witness:
  "validatePublicKey tiny (Affine 8 5)
   \<and> schnorrVerify tiny (Affine 8 5) tiny_msg (SigObject \<lparr>sig_s = 4, sig_e = 67\<rparr>) = Inr True
   \<and> (\<exists>addr h. pub2addr tiny (pointAdd tiny (point_mul tiny (curve_g tiny) (4 mod curve_n tiny))
                                          (point_mul tiny (Affine 8 5) 67)) = Inr addr
              \<and> schnorrHash tiny (Affine 8 5) addr tiny_msg = Inr h \<and> toBN h = Inr 67)"
proof -
  have v: "validatePublicKey tiny (Affine 8 5)"
    by (simp add: validatePublicKey_def tiny_valid_P)
  show ?thesis
    using schnorrVerify_raw_equality [OF v, of tiny_msg "\<lparr>sig_s = 4, sig_e = 67\<rparr>"]
          tiny_verify_67 v
    by simp
qed

text \<open>The recomputed challenge is 67; the supplied 74 is congruent to it modulo 7, and
  the signature is rejected.\<close>

theorem schnorrVerify_rejects_congruent_challenge:
  "validatePublicKey tiny (Affine 8 5)
   \<and> pub2addr tiny (pointAdd tiny (point_mul tiny (curve_g tiny) (4 mod curve_n tiny))
                                  (point_mul tiny (Affine 8 5) 74))
       = Inr ''0x0000000000000000000000000000000000000010''
   \<and> schnorrHash tiny (Affine 8 5) ''0x0000000000000000000000000000000000000010'' tiny_msg
       = Inr ''0x0000000000000000000000000000000000000000000000000000000000000043''
   \<and> toBN ''0x0000000000000000000000000000000000000000000000000000000000000043'' = Inr 67
   \<and> (67::int) mod curve_n tiny = 74 mod curve_n tiny
   \<and> schnorrVerify tiny (Affine 8 5) tiny_msg (SigObject \<lparr>sig_s = 4, sig_e = 74\<rparr>) = Inr False"
proof -
  have n: "curve_n tiny = 7" by (simp add: tiny_def)
  have "pointAdd tiny (point_mul tiny (curve_g tiny) (4 mod curve_n tiny))
                      (point_mul tiny (Affine 8 5) 74) = Affine 8 8"
    by (simp add: n tiny_g_4 tiny_P_74 tiny_pointAdd_4_1)
  then show ?thesis
    using tiny_verify_74 tiny_hash_msg tiny_toBN_43
    by (simp add: n tiny_addr_R validatePublicKey_def tiny_valid_P)
qed

text \<open>
  Claim C6 (round trip). For every signature \<open>(e, s)\<close> with \<open>e\<close> and \<open>s\<close> in \<open>[0, n)\<close>,
  \<open>n\<close> the order of secp256k1, splitSignature of stringifySignature of the signature
  returns exactly \<open>(e, s)\<close>.
\<close>

theorem splitSignature_stringifySignature:
  assumes "0 \<le> ev" "ev < secp256k1_n" "0 \<le> sv" "sv < secp256k1_n"
  shows "splitSignature (stringifySignature \<lparr>sig_s = sv, sig_e = ev\<rparr>) = Inr \<lparr>sig_s = sv, sig_e = ev\<rparr>"
proof -
  have "secp256k1_n < 2 ^ 256" by (simp add: secp256k1_n_def)
  with assms have "ev < 2 ^ 256" "sv < 2 ^ 256" by simp_all
  with assms(1,3) show ?thesis by (simp add: split_stringify)
qed

theorem splitSignature_stringifySignature_witness:
  "(0::int) \<le> 67 \<and> 67 < secp256k1_n \<and> (0::int) \<le> 4 \<and> 4 < secp256k1_n
   \<and> splitSignature (stringifySignature \<lparr>sig_s = 4, sig_e = 67\<rparr>) = Inr \<lparr>sig_s = 4, sig_e = 67\<rparr>"
proof -
  have r: "(0::int) \<le> 67" "67 < secp256k1_n" "(0::int) \<le> 4" "4 < secp256k1_n"
    by (simp_all add: secp256k1_n_def)
  from splitSignature_stringifySignature [OF r] r show ?thesis by simp
qed

text \<open>
  Claim C7, as the code has it. splitSignature removes the first occurrence of \<^verbatim>\<open>0x\<close> and
  fails with MalformedSignature exactly when the remaining string does not have 128
  characters. When it has 128 characters and all of them are hexadecimal digits, the
  result is the pair of scalars read from the two halves, each below \<open>2\<^sup>2\<^sup>5\<^sup>6\<close>. (The spec
  sentence promises the two scalars for every body of 128 characters.)
\<close>

theorem splitSignature_length_check:
  "(splitSignature sg = Inl MalformedSignature \<longleftrightarrow> length (replace_first ''0x'' '''' sg) \<noteq> 128)
   \<and> (length (replace_first ''0x'' '''' sg) = 128 \<and> list_all is_hex_char (replace_first ''0x'' '''' sg) \<longrightarrow>
        splitSignature sg =
          Inr \<lparr>sig_s = int (parse_hex (substr (replace_first ''0x'' '''' sg) 64 64)),
               sig_e = int (parse_hex (substr (replace_first ''0x'' '''' sg) 0 64))\<rparr>
        \<and> parse_hex (substr (replace_first ''0x'' '''' sg) 0 64) < 2 ^ 256
        \<and> parse_hex (substr (replace_first ''0x'' '''' sg) 64 64) < 2 ^ 256)"
proof -
  let ?b = "replace_first ''0x'' '''' sg"
  have a: "splitSignature sg = Inl MalformedSignature \<longleftrightarrow> length ?b \<noteq> 128"
    using toBN_not_malformed
    by (auto simp: splitSignature_def Let_def split: sum.splits)
  have b: "splitSignature sg =
          Inr \<lparr>sig_s = int (parse_hex (substr ?b 64 64)), sig_e = int (parse_hex (substr ?b 0 64))\<rparr>
        \<and> parse_hex (substr ?b 0 64) < 2 ^ 256 \<and> parse_hex (substr ?b 64 64) < 2 ^ 256"
    if len: "length ?b = 128" and hex: "list_all is_hex_char ?b"
  proof -
    have l1: "length (substr ?b 0 64) = 64" and l2: "length (substr ?b 64 64) = 64"
      using len by (simp_all add: substr_def)
    have h1: "list_all is_hex_char (substr ?b 0 64)" and h2: "list_all is_hex_char (substr ?b 64 64)"
      using hex by (auto simp: substr_def list_all_iff dest: in_set_takeD in_set_dropD)
    have n1: "substr ?b 0 64 \<noteq> []" and n2: "substr ?b 64 64 \<noteq> []" using l1 l2 by auto
    have t1: "toBN (''0x'' @ substr ?b 0 64) = Inr (int (parse_hex (substr ?b 0 64)))"
      using n1 h1 by (rule toBN_hex)
    have t2: "toBN (''0x'' @ substr ?b 64 64) = Inr (int (parse_hex (substr ?b 64 64)))"
      using n2 h2 by (rule toBN_hex)
    have "parse_hex (substr ?b 0 64) < 16 ^ 64" "parse_hex (substr ?b 64 64) < 16 ^ 64"
      using parse_hex_bound [of "substr ?b 0 64"] parse_hex_bound [of "substr ?b 64 64"] l1 l2
      by simp_all
    then show ?thesis
      unfolding splitSignature_def Let_def t1 t2 using len by simp
  qed
  from a b show ?thesis by blast
qed

theorem splitSignature_length_check_witness:
  "length (replace_first ''0x'' '''' tiny_sig_string) = 128
   \<and> list_all is_hex_char (replace_first ''0x'' '''' tiny_sig_string)
   \<and> splitSignature tiny_sig_string = Inr \<lparr>sig_s = 4, sig_e = 67\<rparr>
   \<and> length (replace_first ''0x'' '''' ''0x1234'') \<noteq> 128
   \<and> splitSignature ''0x1234'' = Inl MalformedSignature"
proof -
  have short: "length (replace_first ''0x'' '''' ''0x1234'') \<noteq> 128" by simp
  from tiny_sig_body tiny_sig_values short
    splitSignature_length_check [of tiny_sig_string] splitSignature_length_check [of "''0x1234''"]
  show ?thesis by simp
qed

text \<open>A body of 128 characters that are not hexadecimal digits: splitSignature raises
  the error of toBN and returns no scalars.\<close>

theorem splitSignature_non_hex_body:
  "length (replace_first ''0x'' '''' (replicate 128 CHR ''z'')) = 128
   \<and> splitSignature (replicate 128 CHR ''z'') = Inl InvalidNumber"
  by code_simp



text \<open>
  Claim C9 (the response scalar is taken modulo \<open>n\<close>). schnorrVerify reduces the supplied
  \<open>s\<close> before use: if it returns true on the signature object \<open>(e, s)\<close>, it returns
  true on \<open>(e, s + n)\<close>.
\<close>

theorem schnorrVerify_s_plus_n:
  assumes "schnorrVerify L P m (SigObject \<lparr>sig_s = s, sig_e = e\<rparr>) = Inr True"
  shows "schnorrVerify L P m (SigObject \<lparr>sig_s = s + curve_n L, sig_e = e\<rparr>) = Inr True"
proof -
  have "(s + curve_n L) mod curve_n L = s mod curve_n L" by simp
  then have "schnorrVerify L P m (SigObject \<lparr>sig_s = s + curve_n L, sig_e = e\<rparr>)
             = schnorrVerify L P m (SigObject \<lparr>sig_s = s, sig_e = e\<rparr>)"
    by (simp add: schnorrVerify_def and_then_def)
  with assms show ?thesis by simp
qed

theorem schnorrVerify_s_plus_n_witness:
  "schnorrVerify tiny (Affine 8 5) tiny_msg (SigObject \<lparr>sig_s = 4, sig_e = 67\<rparr>) = Inr True
   \<and> schnorrVerify tiny (Affine 8 5) tiny_msg
        (SigObject \<lparr>sig_s = 4 + curve_n tiny, sig_e = 67\<rparr>) = Inr True"
  using schnorrVerify_s_plus_n [OF tiny_verify_67] tiny_verify_67 by simp

text \<open>
  Claim C10 (the emitted signature is not fixed-width). Whenever runMuonApp returns a
  response, its one signature entry carries bn2hex of the \<open>s\<close> of the Schnorr signature
  with no byte length: \<^verbatim>\<open>0x\<close> and two digits for each byte of the shortest big-endian
  form (one byte for 0). So an \<open>s\<close> of fewer than 32 bytes gives a field of fewer than 66
  characters.
\<close>

theorem runMuonApp_signature_minimal:
  assumes "runMuonApp L E req = Inr resp"
  shows "\<exists>hashToBeSigned sg ent.
           schnorrSign L (account_private E) (point_mul L (curve_g L) (account_private E))
               (nonce_private E) (point_mul L (curve_g L) (nonce_private E)) hashToBeSigned = Inr sg
         \<and> rs_signatures resp = Some [ent]
         \<and> bn2hex (sig_s sg) None = Inr (se_signature ent)
         \<and> length (se_signature ent) = 2 + 2 * max 1 (byteLength (sig_s sg))
         \<and> (byteLength (sig_s sg) < 32 \<longrightarrow> length (se_signature ent) < 66)"
proof (rule runMuonApp_Inr [OF assms], goal_cases)
  case (1 appHash muonApp result fields hsp hashToBeSigned sg owner opk sigHex)
  have ent: "rs_signatures resp = Some [\<lparr>se_owner = owner, se_ownerPubKey = opk, se_signature = sigHex\<rparr>]"
    by (simp add: 1(11))
  from bn2hex_minimal [of "sig_s sg"] 1(10)
  have len: "length sigHex = 2 + 2 * max 1 (byteLength (sig_s sg))" by auto
  then have "byteLength (sig_s sg) < 32 \<longrightarrow> length sigHex < 66" by auto
  with 1(7) 1(10) ent len show ?case by auto
qed

theorem runMuonApp_signature_minimal_witness:
  "runMuonApp tiny tiny_env tiny_request = Inr tiny_response
   \<and> (\<exists>hashToBeSigned sg ent.
           schnorrSign tiny (account_private tiny_env)
               (point_mul tiny (curve_g tiny) (account_private tiny_env))
               (nonce_private tiny_env)
               (point_mul tiny (curve_g tiny) (nonce_private tiny_env)) hashToBeSigned = Inr sg
         \<and> rs_signatures tiny_response = Some [ent]
         \<and> bn2hex (sig_s sg) None = Inr (se_signature ent)
         \<and> length (se_signature ent) = 2 + 2 * max 1 (byteLength (sig_s sg))
         \<and> (byteLength (sig_s sg) < 32 \<longrightarrow> length (se_signature ent) < 66))
   \<and> map se_signature (case rs_signatures tiny_response of None \<Rightarrow> [] | Some l \<Rightarrow> l) = [''0x02'']"
proof -
  have "map se_signature (case rs_signatures tiny_response of None \<Rightarrow> [] | Some l \<Rightarrow> l) = [''0x02'']"
    by (simp add: tiny_response_def)
  with runMuonApp_signature_minimal [OF tiny_run] tiny_run show ?thesis by (simp only: simp_thms)
qed

end
